theory Spec2Isabelle
  imports Complex_Main "HOL-Library.Product_Lexorder" "HOL-Library.List_Lexorder"
    "HOL-Library.Char_ord" "HOL-Library.AList"
begin

section \<open>Python values and errors\<close>

text \<open>
  The scripts read JSON snapshots with \<^verbatim>\<open>json.load\<close> and work on the resulting Python
  objects.  A JSON value is modelled as a datatype; a dict is an association list in
  insertion order (keys of a loaded dict are unique).  A Python float is modelled by the
  real number it denotes, with the three non-finite values as constructors of their own:
  floating-point rounding is not modelled, arithmetic on floats is exact arithmetic.
\<close>

datatype pyerr = TypeError | ValueError | OverflowError | AttributeError | IndexError

datatype json =
    JNull
  | JBool bool
  | JInt int
  | JFloat real
  | JPosInf
  | JNegInf
  | JNaN
  | JStr string
  | JList "json list"
  | JDict "(string \<times> json) list"

text \<open>Sequencing of computations that may raise: the first error is the result.\<close>

definition ebind :: "pyerr + 'a \<Rightarrow> ('a \<Rightarrow> pyerr + 'b) \<Rightarrow> pyerr + 'b" where
  "ebind m f = (case m of Inl e \<Rightarrow> Inl e | Inr x \<Rightarrow> f x)"

section \<open>Distribution statistics (verify\_participant\_counts.py, raffle\_dash.py)\<close>

text \<open>Python list indexing \<^verbatim>\<open>values[i]\<close>: negative indices count from the end, an index out of
  range raises IndexError.\<close>

definition py_index :: "'a list \<Rightarrow> int \<Rightarrow> pyerr + 'a" where
  "py_index xs i =
     (if 0 \<le> i \<and> i < int (length xs) then Inr (xs ! nat i)
      else if i < 0 \<and> - int (length xs) \<le> i then Inr (xs ! nat (int (length xs) + i))
      else Inl IndexError)"

text \<open>\<^verbatim>\<open>int(k)\<close> on a finite float truncates towards zero.\<close>

definition py_trunc :: "real \<Rightarrow> int" where
  "py_trunc x = (if 0 \<le> x then \<lfloor>x\<rfloor> else \<lceil>x\<rceil>)"

text \<open>
  \<^verbatim>\<open>percentile(values, pct)\<close>, the same text in verify\_participant\_counts.py (lines 247-258)
  and raffle\_dash.py (lines 66-77).  The result \<open>None\<close> is Python's \<^verbatim>\<open>None\<close>.
\<close>

definition percentile :: "real list \<Rightarrow> real \<Rightarrow> pyerr + real option" where
  "percentile values0 pct =
     (if values0 = [] then Inr None
      else let values = sort values0 in
        if length values = 1 then ebind (py_index values 0) (\<lambda>v. Inr (Some v))
        else let k = (real (length values) - 1) * (pct / 100);
                 f = py_trunc k;
                 c = min (f + 1) (int (length values) - 1)
             in if f = c then ebind (py_index values f) (\<lambda>v. Inr (Some v))
                else ebind (py_index values f) (\<lambda>vf.
                     ebind (py_index values c) (\<lambda>vc.
                     ebind (py_index values f) (\<lambda>vf'.
                       Inr (Some (vf + (vc - vf') * (k - real_of_int f)))))))"

text \<open>The dict returned by \<^verbatim>\<open>compute_stats\<close> of verify\_participant\_counts.py, one field per key.\<close>

record stats =
  s_n :: nat
  s_min :: "real option"
  s_p10 :: "real option"
  s_p25 :: "real option"
  s_median :: "real option"
  s_p75 :: "real option"
  s_p90 :: "real option"
  s_max :: "real option"
  s_iqr :: "real option"

definition compute_stats :: "real list \<Rightarrow> pyerr + stats" where
  "compute_stats values0 =
     (if values0 = [] then
        Inr \<lparr>s_n = 0, s_min = None, s_p10 = None, s_p25 = None, s_median = None,
             s_p75 = None, s_p90 = None, s_max = None, s_iqr = None\<rparr>
      else let values = sort values0 in
        ebind (percentile values 10) (\<lambda>p10.
        ebind (percentile values 25) (\<lambda>p25.
        ebind (percentile values 50) (\<lambda>p50.
        ebind (percentile values 75) (\<lambda>p75.
        ebind (percentile values 90) (\<lambda>p90.
        let iqr = (case (p25, p75) of (Some a, Some b) \<Rightarrow> Some (b - a) | _ \<Rightarrow> None) in
        ebind (py_index values 0) (\<lambda>lo.
        ebind (py_index values (-1)) (\<lambda>hi.
          Inr \<lparr>s_n = length values, s_min = Some lo, s_p10 = p10, s_p25 = p25,
               s_median = p50, s_p75 = p75, s_p90 = p90, s_max = Some hi,
               s_iqr = iqr\<rparr>))))))))"

text \<open>
  \<^verbatim>\<open>stats_from_values(values, precision)\<close> of raffle\_dash.py returns a dict whose keys depend
  on the branch taken, so the result is an association list from key to value.
  \<^verbatim>\<open>round(x, precision)\<close> is taken as a parameter \<open>rnd\<close>.
\<close>

definition stats_from_values ::
  "(real \<Rightarrow> nat \<Rightarrow> real) \<Rightarrow> real list \<Rightarrow> nat \<Rightarrow> pyerr + (string \<times> real) list" where
  "stats_from_values rnd values0 precision =
     (if values0 = [] then Inr [(''n'', 0)]
      else let values = sort values0;
               avg = sum_list values / real (length values) in
        ebind (percentile values 50) (\<lambda>p50.
        ebind (percentile values 90) (\<lambda>p90.
        ebind (py_index values 0) (\<lambda>lo.
        ebind (py_index values (-1)) (\<lambda>hi.
          Inr [(''n'', real (length values)),
               (''avg'', rnd avg precision),
               (''median'', rnd (the p50) precision),
               (''p90'', rnd (the p90) precision),
               (''min'', lo),
               (''max'', hi)])))))"

text \<open>
  The conventional median, written from its textbook definition and independent of
  \<open>percentile\<close>: the middle element of the sorted sample for odd length, the mean of the
  two middle elements for even length.
\<close>

definition conventional_median :: "real list \<Rightarrow> real" where
  "conventional_median xs =
     (let ys = sort xs; n = length ys
      in if odd n then ys ! (n div 2)
         else (ys ! (n div 2 - 1) + ys ! (n div 2)) / 2)"

section \<open>Field normalizer\<close>

subsection \<open>Python built-ins used by the scripts\<close>

text \<open>Truthiness of a JSON value (\<^verbatim>\<open>if x\<close>, \<^verbatim>\<open>x or y\<close>).\<close>

fun py_truthy :: "json \<Rightarrow> bool" where
  "py_truthy JNull = False"
| "py_truthy (JBool b) = b"
| "py_truthy (JInt i) = (i \<noteq> 0)"
| "py_truthy (JFloat r) = (r \<noteq> 0)"
| "py_truthy JPosInf = True"
| "py_truthy JNegInf = True"
| "py_truthy JNaN = True"
| "py_truthy (JStr s) = (s \<noteq> [])"
| "py_truthy (JList xs) = (xs \<noteq> [])"
| "py_truthy (JDict d) = (d \<noteq> [])"

definition py_or :: "json \<Rightarrow> json \<Rightarrow> json" where
  "py_or a b = (if py_truthy a then a else b)"

text \<open>\<^verbatim>\<open>d.get(k)\<close> on a dict: the value, or \<^verbatim>\<open>None\<close> when the key is missing.\<close>

definition dict_get :: "(string \<times> json) list \<Rightarrow> string \<Rightarrow> json" where
  "dict_get d k = (case map_of d k of None \<Rightarrow> JNull | Some v \<Rightarrow> v)"

text \<open>\<^verbatim>\<open>x.get(k)\<close> on a value not known to be a dict: AttributeError when it is none.\<close>

definition py_get :: "json \<Rightarrow> string \<Rightarrow> pyerr + json" where
  "py_get x k = (case x of JDict d \<Rightarrow> Inr (dict_get d k) | _ \<Rightarrow> Inl AttributeError)"

text \<open>
  \<^verbatim>\<open>int(s)\<close> on a string, for ASCII text: surrounding whitespace is stripped, one sign is
  allowed, then decimal digits, with single underscores between digits.  (The digit
  limit of recent Python versions, 4300 digits by default, is not modelled.)
\<close>

definition is_space :: "char \<Rightarrow> bool" where
  "is_space c = (let n = (of_char c :: nat) in (9 \<le> n \<and> n \<le> 13) \<or> (28 \<le> n \<and> n \<le> 32))"

definition py_strip :: "string \<Rightarrow> string" where
  "py_strip s = rev (dropWhile is_space (rev (dropWhile is_space s)))"

definition is_digit :: "char \<Rightarrow> bool" where
  "is_digit c = (let n = (of_char c :: nat) in 48 \<le> n \<and> n \<le> 57)"

definition digit_val :: "char \<Rightarrow> nat" where
  "digit_val c = of_char c - 48"

fun digits_acc :: "nat \<Rightarrow> string \<Rightarrow> nat option" where
  "digits_acc acc [] = Some acc"
| "digits_acc acc [c] = (if is_digit c then Some (acc * 10 + digit_val c) else None)"
| "digits_acc acc (c # d # ds) =
     (if c = CHR ''_'' then
        (if is_digit d then digits_acc (acc * 10 + digit_val d) ds else None)
      else if is_digit c then digits_acc (acc * 10 + digit_val c) (d # ds)
      else None)"

definition int_of_str :: "string \<Rightarrow> int option" where
  "int_of_str s =
     (case py_strip s of
        [] \<Rightarrow> None
      | c # cs \<Rightarrow>
          let neg = (c = CHR ''-'');
              body = (if c = CHR ''-'' \<or> c = CHR ''+'' then cs else c # cs)
          in (case body of
                [] \<Rightarrow> None
              | d # ds \<Rightarrow>
                  if is_digit d then
                    map_option (\<lambda>n. if neg then - int n else int n) (digits_acc (digit_val d) ds)
                  else None))"

text \<open>
  \<^verbatim>\<open>int(raw)\<close> on a JSON value: TypeError on \<^verbatim>\<open>None\<close>, lists and dicts, ValueError on NaN
  and on text that is no integer literal, OverflowError on an infinite float.
\<close>

fun py_int :: "json \<Rightarrow> pyerr + int" where
  "py_int JNull = Inl TypeError"
| "py_int (JBool b) = Inr (if b then 1 else 0)"
| "py_int (JInt i) = Inr i"
| "py_int (JFloat r) = Inr (py_trunc r)"
| "py_int JPosInf = Inl OverflowError"
| "py_int JNegInf = Inl OverflowError"
| "py_int JNaN = Inl ValueError"
| "py_int (JStr s) = (case int_of_str s of None \<Rightarrow> Inl ValueError | Some i \<Rightarrow> Inr i)"
| "py_int (JList xs) = Inl TypeError"
| "py_int (JDict d) = Inl TypeError"

text \<open>
  The block \<^verbatim>\<open>try: x = int(raw)  except (TypeError, ValueError): x = None\<close>, which all the
  normalizers share: the two caught errors give \<^verbatim>\<open>None\<close>, any other error propagates.
\<close>

definition try_int :: "json \<Rightarrow> pyerr + int option" where
  "try_int raw =
     (case py_int raw of
        Inr i \<Rightarrow> Inr (Some i)
      | Inl TypeError \<Rightarrow> Inr None
      | Inl ValueError \<Rightarrow> Inr None
      | Inl e \<Rightarrow> Inl e)"

subsection \<open>Star rating\<close>

text \<open>The lookup of the raw rating that every \<^verbatim>\<open>get_star\<close> starts with: the nested field,
  then the top-level field of the same name.\<close>

definition raw_star :: "json \<Rightarrow> json" where
  "raw_star raffle =
     (let raffle_data = (case raffle of JDict d \<Rightarrow> dict_get d ''raffle'' | _ \<Rightarrow> JNull);
          raw = (case raffle_data of JDict rd \<Rightarrow> dict_get rd ''stickerStars'' | _ \<Rightarrow> JNull)
      in (case raffle of
            JDict d \<Rightarrow> if raw = JNull then dict_get d ''stickerStars'' else raw
          | _ \<Rightarrow> raw))"

text \<open>\<^verbatim>\<open>get_star\<close> of verify\_participant\_counts.py (lines 168-178), stats\_by\_user.py
  (lines 156-166) and export\_reverify\_list.py (lines 106-116): the same text in all three.\<close>

definition get_star :: "json \<Rightarrow> pyerr + int option" where
  "get_star raffle = try_int (raw_star raffle)"

text \<open>\<^verbatim>\<open>get_star\<close> of raffle\_dash.py (lines 151-162), which adds the range check.\<close>

definition get_star_dash :: "json \<Rightarrow> pyerr + int option" where
  "get_star_dash raffle =
     ebind (try_int (raw_star raffle)) (\<lambda>r.
       case r of
         None \<Rightarrow> Inr None
       | Some star \<Rightarrow> Inr (if 1 \<le> star \<and> star \<le> 5 then Some star else None))"

subsection \<open>Participant count\<close>

text \<open>\<^verbatim>\<open>get_participant_info\<close> of verify\_participant\_counts.py (lines 181-194) and
  export\_reverify\_list.py: the pair (count, ids\_len).\<close>

definition get_participant_info :: "json \<Rightarrow> pyerr + (int option \<times> nat option)" where
  "get_participant_info raffle =
     (let raffle_data = (case raffle of JDict d \<Rightarrow> dict_get d ''raffle'' | _ \<Rightarrow> JNull)
      in case raffle_data of
           JDict rd \<Rightarrow>
             let ids = dict_get rd ''participantIds'';
                 ids_len = (case ids of JList l \<Rightarrow> Some (length l) | _ \<Rightarrow> None);
                 count_raw = dict_get rd ''participantCount''
             in ebind (try_int count_raw) (\<lambda>count.
                  Inr (if count = None \<and> ids_len \<noteq> None then map_option int ids_len else count,
                       ids_len))
         | _ \<Rightarrow> Inr (None, None))"

text \<open>\<^verbatim>\<open>get_participant_count\<close> of stats\_by\_user.py (lines 169-181).\<close>

definition get_participant_count :: "json \<Rightarrow> pyerr + int option" where
  "get_participant_count raffle =
     (let raffle_data = (case raffle of JDict d \<Rightarrow> dict_get d ''raffle'' | _ \<Rightarrow> JNull)
      in case raffle_data of
           JDict rd \<Rightarrow>
             ebind (try_int (dict_get rd ''participantCount'')) (\<lambda>count.
               case count of
                 Some c \<Rightarrow> Inr (Some c)
               | None \<Rightarrow>
                   (case dict_get rd ''participantIds'' of
                      JList l \<Rightarrow> Inr (Some (int (length l)))
                    | _ \<Rightarrow> Inr None))
         | _ \<Rightarrow> Inr None)"

text \<open>\<^verbatim>\<open>get_participant_info\<close> of raffle\_dash.py (lines 175-187): the triple
  (count, ids, has\_ids).\<close>

definition get_participant_info_dash ::
  "json \<Rightarrow> pyerr + (int option \<times> json list option \<times> bool)" where
  "get_participant_info_dash raffle =
     (let raffle_data = (case raffle of JDict d \<Rightarrow> dict_get d ''raffle'' | _ \<Rightarrow> JNull)
      in case raffle_data of
           JDict rd \<Rightarrow>
             (case dict_get rd ''participantIds'' of
                JList l \<Rightarrow> Inr (Some (int (length l)), Some l, True)
              | _ \<Rightarrow>
                  ebind (try_int (dict_get rd ''participantCount'')) (\<lambda>count.
                    Inr (count, None, False)))
         | _ \<Rightarrow> Inr (None, None, False))"

section \<open>Record reconciler\<close>

text \<open>\<^verbatim>\<open>score_entry\<close> of stats\_by\_user.py (lines 221-234) and export\_reverify\_list.py
  (lines 152-162).  The tuple is compared lexicographically, as Python compares tuples.\<close>

type_synonym score = "nat \<times> nat \<times> nat \<times> nat"

definition score_entry :: "json \<Rightarrow> pyerr + score" where
  "score_entry entry =
     ebind (py_get entry ''winner'') (\<lambda>w0. let winner = py_or w0 (JDict []) in
     ebind (py_get entry ''raffle'') (\<lambda>r0. let raffle = py_or r0 (JDict []) in
     ebind (py_get winner ''winnerName'') (\<lambda>wn.
     ebind (if py_truthy wn then Inr wn else py_get winner ''winnerId'') (\<lambda>w.
     ebind (py_get raffle ''participantCount'') (\<lambda>pc.
     ebind (if pc \<noteq> JNull then Inr True
            else ebind (py_get raffle ''participantIds'') (\<lambda>ps. Inr (ps \<noteq> JNull))) (\<lambda>has_p.
     ebind (py_get raffle ''stickerStars'') (\<lambda>ss.
     ebind (py_get raffle ''stickerName'') (\<lambda>sn.
       Inr (if py_truthy w then 1 else 0,
            if has_p then 1 else 0,
            if ss \<noteq> JNull then 1 else 0,
            if sn \<noteq> JNull then 1 else 0)))))))))"

text \<open>
  export\_reverify\_list.py, \<^verbatim>\<open>main\<close>: the two dicts \<^verbatim>\<open>entries_by_post\<close> and
  \<^verbatim>\<open>day_keys_by_post\<close> and the closure \<^verbatim>\<open>consider\<close> (lines 196-200) that updates them (named
  \<open>consider_entry\<close> here).
\<close>

record rstate =
  entries_by_post :: "string \<rightharpoonup> json"
  day_keys_by_post :: "string \<rightharpoonup> string"

definition consider_entry :: "rstate \<Rightarrow> string \<Rightarrow> string \<Rightarrow> json \<Rightarrow> pyerr + rstate" where
  "consider_entry st day_key post_id entry =
     (let existing = (case entries_by_post st post_id of None \<Rightarrow> JNull | Some e \<Rightarrow> e);
          store = st\<lparr>entries_by_post := (entries_by_post st)(post_id \<mapsto> entry),
                     day_keys_by_post := (day_keys_by_post st)(post_id \<mapsto> day_key)\<rparr>
      in if existing = JNull then Inr store
         else ebind (score_entry entry) (\<lambda>s_new.
              ebind (score_entry existing) (\<lambda>s_old.
                Inr (if s_new > s_old then store else st))))"

text \<open>
  An observation is a triple (day key, post id, raffle object), as
  \<^verbatim>\<open>iter_raffles_from_file\<close> yields them; it skips every raffle that is no dict.  The
  sources are read in order (the daily snapshots, sorted, then the storage file), so
  the observations arrive as one list.
\<close>

type_synonym observation = "string \<times> string \<times> json"

definition iter_raffles :: "observation list \<Rightarrow> observation list" where
  "iter_raffles obs = filter (\<lambda>(day_key, post_id, raffle). case raffle of JDict d \<Rightarrow> True | _ \<Rightarrow> False) obs"

fun consider_all :: "rstate \<Rightarrow> observation list \<Rightarrow> pyerr + rstate" where
  "consider_all st [] = Inr st"
| "consider_all st ((day_key, post_id, entry) # rest) =
     ebind (consider_entry st day_key post_id entry) (\<lambda>st'. consider_all st' rest)"

definition reverify_entries :: "observation list \<Rightarrow> pyerr + rstate" where
  "reverify_entries obs =
     consider_all \<lparr>entries_by_post = Map.empty, day_keys_by_post = Map.empty\<rparr> (iter_raffles obs)"

text \<open>
  stats\_by\_user.py, \<^verbatim>\<open>main\<close>: \<^verbatim>\<open>entries_by_date\<close> is a \<^verbatim>\<open>defaultdict(dict)\<close> from date to post
  id to entry, updated by the closure \<^verbatim>\<open>add_entry\<close> (lines 556-561).
\<close>

definition add_entry ::
  "(string \<Rightarrow> string \<rightharpoonup> json) \<Rightarrow> string \<Rightarrow> string \<Rightarrow> json \<Rightarrow> pyerr + (string \<Rightarrow> string \<rightharpoonup> json)" where
  "add_entry entries_by_date date post_id entry =
     (let existing = (case entries_by_date date post_id of None \<Rightarrow> JNull | Some e \<Rightarrow> e);
          store = entries_by_date(date := (entries_by_date date)(post_id \<mapsto> entry))
      in if existing = JNull then Inr store
         else ebind (score_entry entry) (\<lambda>s_new.
              ebind (score_entry existing) (\<lambda>s_old.
                Inr (if s_new > s_old then store else entries_by_date))))"

text \<open>
  verify\_participant\_counts.py, \<^verbatim>\<open>main\<close> (lines 339-344): the set \<^verbatim>\<open>seen\<close> of post ids.  An
  observation whose post id was seen before is skipped; each of the others is turned
  into one row of \<^verbatim>\<open>records\<close> (lines 345-362).  The function returns the observations
  that become rows.
\<close>

fun first_seen :: "string set \<Rightarrow> observation list \<Rightarrow> observation list" where
  "first_seen seen [] = []"
| "first_seen seen ((day_key, post_id, raffle) # rest) =
     (if post_id \<in> seen then first_seen seen rest
      else (day_key, post_id, raffle) # first_seen (insert post_id seen) rest)"

definition audit_observations :: "observation list \<Rightarrow> observation list" where
  "audit_observations obs = first_seen {} (iter_raffles obs)"

section \<open>Outlier detector (verify\_participant\_counts.py)\<close>




















section \<open>Fairness estimator (generate\_daily\_post.py)\<close>

text \<open>
  Participant ids are used as members of sets and keys of dicts, where Python compares
  by hash and equality: \<^verbatim>\<open>True\<close>, \<^verbatim>\<open>1\<close> and \<^verbatim>\<open>1.0\<close> are one key, lists and dicts are unhashable
  (TypeError).  \<open>py_hash_key\<close> maps a value to its key.
\<close>

datatype hkey = HNone | HNum real | HPosInf | HNegInf | HNaN | HStr string

fun py_hash_key :: "json \<Rightarrow> pyerr + hkey" where
  "py_hash_key JNull = Inr HNone"
| "py_hash_key (JBool b) = Inr (HNum (if b then 1 else 0))"
| "py_hash_key (JInt i) = Inr (HNum (real_of_int i))"
| "py_hash_key (JFloat r) = Inr (HNum r)"
| "py_hash_key JPosInf = Inr HPosInf"
| "py_hash_key JNegInf = Inr HNegInf"
| "py_hash_key JNaN = Inr HNaN"
| "py_hash_key (JStr s) = Inr (HStr s)"
| "py_hash_key (JList xs) = Inl TypeError"
| "py_hash_key (JDict d) = Inl TypeError"

text \<open>Line 146: \<^verbatim>\<open>filtered_ids = [pid for pid in participant_ids if pid not in excluded_ids]\<close>,
  as the list of the keys of the ids kept.  The excluded ids are strings.\<close>

fun filter_ids :: "string set \<Rightarrow> json list \<Rightarrow> pyerr + hkey list" where
  "filter_ids excluded_ids [] = Inr []"
| "filter_ids excluded_ids (pid # rest) =
     ebind (py_hash_key pid) (\<lambda>k.
     ebind (filter_ids excluded_ids rest) (\<lambda>ks.
       Inr (if (case k of HStr s \<Rightarrow> s \<in> excluded_ids | _ \<Rightarrow> False) then ks else k # ks)))"

text \<open>\<^verbatim>\<open>str.lower()\<close> for ASCII text, and \<^verbatim>\<open>str(x)\<close>: the identity on a string; the text Python
  prints for any other value is a parameter \<open>repr\<close>.\<close>

definition py_lower :: "string \<Rightarrow> string" where
  "py_lower s =
     map (\<lambda>c. let n = (of_char c :: nat) in if 65 \<le> n \<and> n \<le> 90 then char_of (n + 32) else c) s"

definition py_str :: "(json \<Rightarrow> string) \<Rightarrow> json \<Rightarrow> string" where
  "py_str repr x = (case x of JStr s \<Rightarrow> s | _ \<Rightarrow> repr x)"

text \<open>\<^verbatim>\<open>a or b\<close> where evaluating \<open>b\<close> may raise.\<close>

definition or_else :: "json \<Rightarrow> pyerr + json \<Rightarrow> pyerr + json" where
  "or_else a m = (if py_truthy a then Inr a else m)"

text \<open>\<^verbatim>\<open>extract_winner(entry)\<close> (lines 66-70): the pair (winner\_name, winner\_id).\<close>

definition extract_winner :: "json \<Rightarrow> pyerr + (json \<times> json)" where
  "extract_winner entry =
     ebind (py_get entry ''winner'') (\<lambda>w0. let winner = py_or w0 (JDict []) in
     ebind (py_get winner ''winnerName'') (\<lambda>a.
     ebind (or_else a (ebind (py_get entry ''winnerName'') (\<lambda>b.
              or_else b (py_get winner ''name'')))) (\<lambda>winner_name.
     ebind (py_get winner ''winnerId'') (\<lambda>c.
     ebind (or_else c (ebind (py_get entry ''winnerId'') (\<lambda>d.
              or_else d (py_get winner ''id'')))) (\<lambda>winner_id.
       Inr (winner_name, winner_id))))))"

text \<open>\<^verbatim>\<open>normalize_winner(name, user_id, excluded_names, excluded_ids)\<close> (lines 73-86).\<close>

definition normalize_winner ::
  "(json \<Rightarrow> string) \<Rightarrow> json \<Rightarrow> json \<Rightarrow> string set \<Rightarrow> string set \<Rightarrow> string option" where
  "normalize_winner repr name user_id excluded_names excluded_ids =
     (if py_truthy name then
        let name_value = py_strip (py_str repr name)
        in if py_lower name_value = ''nobody'' then None
           else if py_lower name_value \<in> excluded_names then None
           else Some name_value
      else if py_truthy user_id then
        let user_value = py_strip (py_str repr user_id)
        in if user_value \<in> excluded_ids then None else Some user_value
      else None)"

text \<open>
  What one pass of the loop of \<^verbatim>\<open>compute_stats\<close> (lines 132-164) reads from an entry: the
  rating \<^verbatim>\<open>stars\<close>, the keys of \<^verbatim>\<open>filtered_unique\<close> when \<^verbatim>\<open>participantIds\<close> is a list, and
  \<^verbatim>\<open>winner_key\<close>.  The reads are made in the order of the source, so the first error is the
  one Python raises; an error ends the whole function, so the updates of the counters
  can be applied after the reads of the pass.  An entry that is no dict is skipped.
\<close>

record view =
  v_stars :: "int option"
  v_unique :: "hkey list option"
  v_winner :: "string option"

definition entry_view ::
  "(json \<Rightarrow> string) \<Rightarrow> string set \<Rightarrow> string set \<Rightarrow> json \<Rightarrow> pyerr + view option" where
  "entry_view repr excluded_names excluded_ids entry =
     (case entry of
        JDict d \<Rightarrow>
          let raffle = py_or (dict_get d ''raffle'') (JDict []) in
          ebind (py_get raffle ''stickerStars'') (\<lambda>stars_raw.
          ebind (try_int stars_raw) (\<lambda>stars_v.
          ebind (py_get raffle ''participantIds'') (\<lambda>participant_ids.
          ebind (case participant_ids of
                   JList l \<Rightarrow> ebind (filter_ids excluded_ids l) (\<lambda>ks. Inr (Some (remdups ks)))
                 | _ \<Rightarrow> Inr None) (\<lambda>filtered_unique.
          ebind (extract_winner entry) (\<lambda>(winner_name, winner_id).
            Inr (Some \<lparr>v_stars = stars_v, v_unique = filtered_unique,
                       v_winner = normalize_winner repr winner_name winner_id
                                    excluded_names excluded_ids\<rparr>))))))
      | _ \<Rightarrow> Inr None)"

text \<open>The three counters of the fairness check.  \<^verbatim>\<open>c[k] += v\<close> on a \<^verbatim>\<open>Counter\<close> reads 0 for a
  missing key.\<close>

record fair_state =
  five_star_participant_entries :: "(hkey \<times> nat) list"
  five_star_lambda :: "(hkey \<times> real) list"
  five_star_winner_counts :: "(string \<times> nat) list"

definition counter_get :: "('k \<times> 'v::zero) list \<Rightarrow> 'k \<Rightarrow> 'v" where
  "counter_get c k = (case map_of c k of None \<Rightarrow> 0 | Some v \<Rightarrow> v)"

definition counter_add :: "('k \<times> 'v::{zero,plus}) list \<Rightarrow> 'k \<Rightarrow> 'v \<Rightarrow> ('k \<times> 'v) list" where
  "counter_add c k v = AList.update k (counter_get c k + v) c"

text \<open>Lines 153-157 and 163-164: the updates of one pass.\<close>

definition apply_view :: "fair_state \<Rightarrow> view \<Rightarrow> fair_state" where
  "apply_view st v =
     (let st1 =
        (case v_unique v of
           Some filtered_unique \<Rightarrow>
             if v_stars v = Some 5 \<and> filtered_unique \<noteq> [] then
               let per_raffle_prob = 1 / real (length filtered_unique)
               in fold (\<lambda>pid s.
                    s\<lparr>five_star_participant_entries :=
                         counter_add (five_star_participant_entries s) pid 1,
                      five_star_lambda := counter_add (five_star_lambda s) pid per_raffle_prob\<rparr>)
                    filtered_unique st
             else st
         | None \<Rightarrow> st)
      in case v_winner v of
           Some winner_key \<Rightarrow>
             if v_stars v = Some 5 \<and> winner_key \<noteq> [] then
               st1\<lparr>five_star_winner_counts := counter_add (five_star_winner_counts st1) winner_key 1\<rparr>
             else st1
         | None \<Rightarrow> st1)"

fun fair_loop ::
  "(json \<Rightarrow> string) \<Rightarrow> string set \<Rightarrow> string set \<Rightarrow> fair_state \<Rightarrow> json list \<Rightarrow> pyerr + fair_state" where
  "fair_loop repr excluded_names excluded_ids st [] = Inr st"
| "fair_loop repr excluded_names excluded_ids st (entry # rest) =
     ebind (entry_view repr excluded_names excluded_ids entry) (\<lambda>v.
       fair_loop repr excluded_names excluded_ids
         (case v of None \<Rightarrow> st | Some w \<Rightarrow> apply_view st w) rest)"

text \<open>The fairness fields of the dict \<^verbatim>\<open>compute_stats\<close> returns (lines 196-199 and 215-219).\<close>

record fairness =
  five_star_participants :: nat
  expected_double_winners :: real
  actual_double_winners :: nat

definition poisson_two_or_more :: "real \<Rightarrow> real" where
  "poisson_two_or_more lam = 1 - exp (- lam) * (1 + lam)"

definition init_state :: fair_state where
  "init_state = \<lparr>five_star_participant_entries = [], five_star_lambda = [],
                 five_star_winner_counts = []\<rparr>"

definition compute_stats_daily ::
  "(json \<Rightarrow> string) \<Rightarrow> (string \<times> json) list \<Rightarrow> string set \<Rightarrow> string set \<Rightarrow> pyerr + fairness" where
  "compute_stats_daily repr bucket excluded_names excluded_ids =
     ebind (fair_loop repr excluded_names excluded_ids init_state (map snd bucket)) (\<lambda>st.
       Inr \<lparr>five_star_participants = length (five_star_participant_entries st),
            expected_double_winners =
              fold (\<lambda>lam acc. acc + poisson_two_or_more lam) (map snd (five_star_lambda st)) 0,
            actual_double_winners =
              length (filter (\<lambda>wins. wins \<ge> 2) (map snd (five_star_winner_counts st)))\<rparr>)"

text \<open>
  The fairness estimate as the specification words it.  \<open>views\<close> are the reads of the
  entries of a bucket that are dicts; the 5-star records contribute their sets of
  distinct (non-excluded) participants and their winner keys.  \<open>spec_lambda\<close> is the sum,
  over the 5-star records whose participant set contains \<open>i\<close>, of one over the number of
  distinct participants of the record; \<open>spec_expected\<close> sums the Poisson probability of two
  or more wins over all participants; \<open>spec_actual\<close> counts the winners of at least two
  5-star records.
\<close>

definition views :: "(json \<Rightarrow> string) \<Rightarrow> string set \<Rightarrow> string set \<Rightarrow> json list \<Rightarrow> view list" where
  "views repr excluded_names excluded_ids entries =
     List.map_filter
       (\<lambda>e. case entry_view repr excluded_names excluded_ids e of
               Inr (Some w) \<Rightarrow> Some w
             | _ \<Rightarrow> None) entries"

definition five_star_sets :: "view list \<Rightarrow> hkey set list" where
  "five_star_sets ws =
     List.map_filter (\<lambda>w. if v_stars w = Some 5 then map_option set (v_unique w) else None) ws"

definition five_star_winners :: "view list \<Rightarrow> string list" where
  "five_star_winners ws =
     List.map_filter
       (\<lambda>w. if v_stars w = Some 5 then
               (case v_winner w of
                  Some k \<Rightarrow> if k \<noteq> [] then Some k else None
                | None \<Rightarrow> None)
             else None) ws"

definition spec_lambda :: "hkey set list \<Rightarrow> hkey \<Rightarrow> real" where
  "spec_lambda sets i = sum_list (map (\<lambda>P. if i \<in> P then 1 / real (card P) else 0) sets)"

definition spec_expected :: "hkey set list \<Rightarrow> real" where
  "spec_expected sets =
     sum (\<lambda>i. 1 - exp (- spec_lambda sets i) * (1 + spec_lambda sets i)) (\<Union> (set sets))"


text \<open>
  Example inputs.  \<open>repr_unused\<close> stands for Python's \<^verbatim>\<open>repr\<close> in the examples: their winner
  fields are strings or absent, so it is never applied.  \<open>demo_bucket\<close> holds two 5-star
  records won by the same user and one 4-star record; \<^verbatim>\<open>t2_me\<close> is the excluded id.
\<close>

definition repr_unused :: "json \<Rightarrow> string" where
  "repr_unused x = []"


text \<open>\<open>single_entrant_bucket n\<close>: \<open>n\<close> 5-star records, each with one participant of its own.
  \<open>repeat_entrant_bucket n\<close>: \<open>n\<close> 5-star records, each entered by \<^verbatim>\<open>t2_hero\<close> and by one other
  participant of its own.\<close>

definition single_entrant_bucket :: "nat \<Rightarrow> (string \<times> json) list" where
  "single_entrant_bucket n =
     map (\<lambda>k. (''t3_'' @ replicate k (CHR ''x''),
               JDict [(''raffle'', JDict [(''stickerStars'', JInt 5),
                  (''participantIds'', JList [JStr (''t2_'' @ replicate k (CHR ''u''))])])]))
       [0..<n]"

definition repeat_entrant_bucket :: "nat \<Rightarrow> (string \<times> json) list" where
  "repeat_entrant_bucket n =
     map (\<lambda>k. (''t3_'' @ replicate k (CHR ''x''),
               JDict [(''raffle'', JDict [(''stickerStars'', JInt 5),
                  (''participantIds'',
                     JList [JStr ''t2_hero'', JStr (''t2_'' @ replicate k (CHR ''r''))])])]))
       [0..<n]"

section \<open>Properties of the statistics engine\<close>

lemma py_index_nat: "i < length xs \<Longrightarrow> py_index xs (int i) = Inr (xs ! i)"
  by (simp add: py_index_def)


text \<open>
  Claim C8.  On the empty sample, \<open>compute_stats\<close> returns normally with count 0 and
  Python's \<open>None\<close> for min, p10, p25, median, p75, p90, max and IQR, and
  \<open>stats_from_values\<close> returns normally the dict holding only the count 0: no statistic
  is reported as zero and nothing is raised.
\<close>

theorem compute_stats_empty:
  "compute_stats [] =
     Inr \<lparr>s_n = 0, s_min = None, s_p10 = None, s_p25 = None, s_median = None,
          s_p75 = None, s_p90 = None, s_max = None, s_iqr = None\<rparr>
   \<and> stats_from_values rnd [] precision = Inr [(''n'', 0)]"
  by (simp add: compute_stats_def stats_from_values_def)

lemma ebind_Inr [simp]: "ebind (Inr x) f = f x"
  by (simp add: ebind_def)

lemma ebind_Inl [simp]: "ebind (Inl e) f = Inl e"
  by (simp add: ebind_def)

lemma ebind_eq_Inr: "ebind m f = Inr y \<longleftrightarrow> (\<exists>x. m = Inr x \<and> f x = Inr y)"
  by (cases m) simp_all

lemma py_trunc_half:
  assumes "n \<ge> 1"
  shows "py_trunc ((real n - 1) * (50 / 100)) = int ((n - 1) div 2)"
proof -
  have "(real n - 1) * (50 / 100) = real (n - 1) / 2"
    using assms by simp
  moreover have "\<lfloor>real (n - 1) / 2\<rfloor> = int ((n - 1) div 2)"
    by (simp add: floor_divide_of_nat_eq [of "n - 1" 2, simplified])
  ultimately show ?thesis
    by (simp add: py_trunc_def)
qed

text \<open>
  Claim C9.  For every non-empty sample \<open>S\<close>, of odd or even length, \<open>percentile S 50\<close>
  returns normally and its value is the conventional median of \<open>S\<close>: the middle element
  of the sorted sample for odd length, the mean of the two middle elements for even
  length.
\<close>

theorem percentile_50_median:
  assumes "S \<noteq> []"
  shows "percentile S 50 = Inr (Some (conventional_median S))"
proof -
  define vs where "vs = sort S"
  define n where "n = length vs"
  have n1: "n \<ge> 1"
    using assms by (cases S) (simp_all add: n_def vs_def)
  show ?thesis
  proof (cases "n = 1")
    case True
    then show ?thesis
      using assms py_index_nat [of 0 vs]
      by (simp add: percentile_def conventional_median_def Let_def vs_def [symmetric] n_def [symmetric])
  next
    case False
    with n1 have n2: "n \<ge> 2" by simp
    define f where "f = (n - 1) div 2"
    have tr: "py_trunc ((real n - 1) * (50 / 100)) = int f"
      using py_trunc_half [OF n1] by (simp add: f_def)
    have fc: "min (int f + 1) (int n - 1) = int (f + 1)"
      using n2 by (auto simp: f_def)
    have f_lt: "f < n" "f + 1 < n"
      using n2 by (auto simp: f_def)
    have kf: "(real n - 1) * (50 / 100) - real_of_int (int f) = (if odd n then 0 else 1 / 2)"
    proof (cases "odd n")
      case True
      then obtain m where "n = 2 * m + 1" by (auto elim: oddE)
      then show ?thesis by (simp add: f_def)
    next
      case False
      then obtain m where m: "n = 2 * m" by (auto elim: evenE)
      with n2 have "m \<ge> 1" by simp
      then have "(2 * m - 1) div 2 = m - 1" by simp
      with m \<open>m \<ge> 1\<close> show ?thesis by (simp add: f_def field_simps)
    qed
    have idx: "odd n \<Longrightarrow> f = n div 2" "even n \<Longrightarrow> f = n div 2 - 1 \<and> f + 1 = n div 2"
      using n2 by (auto simp: f_def elim!: oddE evenE)
    have iF: "py_index vs (int f) = Inr (vs ! f)"
      using f_lt by (simp add: py_index_nat n_def)
    have iC: "py_index vs (1 + int f) = Inr (vs ! Suc f)"
      using f_lt py_index_nat [of "Suc f" vs] by (simp add: n_def)
    have "percentile S 50 =
        Inr (Some (vs ! f + (vs ! (f + 1) - vs ! f) * (if odd n then 0 else 1 / 2)))"
      using assms False tr fc kf
      by (simp add: percentile_def Let_def vs_def [symmetric] n_def [symmetric] iF iC)
    also have "vs ! f + (vs ! (f + 1) - vs ! f) * (if odd n then 0 else 1 / 2) = conventional_median S"
      using idx by (auto simp add: conventional_median_def Let_def vs_def [symmetric] n_def [symmetric] field_simps)
    finally show ?thesis .
  qed
qed

theorem percentile_50_median_witness:
  "[4, 1, 2, 3 :: real] \<noteq> [] \<and> percentile [4, 1, 2, 3] 50 = Inr (Some (5 / 2))
   \<and> [3, 1, 2 :: real] \<noteq> [] \<and> percentile [3, 1, 2] 50 = Inr (Some 2)"
  using percentile_50_median [of "[4, 1, 2, 3]"] percentile_50_median [of "[3, 1, 2]"]
  by (simp add: conventional_median_def)

section \<open>Properties of the field normalizer\<close>

lemma get_star_dash_range:
  "get_star_dash r = Inr (Some s) \<longleftrightarrow> get_star r = Inr (Some s) \<and> 1 \<le> s \<and> s \<le> 5"
  by (cases "try_int (raw_star r)") (auto simp: get_star_dash_def get_star_def split: option.splits)

lemma get_star_dash_unknown:
  "get_star_dash r = Inr None \<longleftrightarrow>
     get_star r = Inr None \<or> (\<exists>s. get_star r = Inr (Some s) \<and> (s < 1 \<or> 5 < s))"
  by (cases "try_int (raw_star r)") (auto simp: get_star_dash_def get_star_def split: option.splits)

text \<open>
  Claim C6.  The claim asks every normalized star rating outside 1-5 to be the unknown
  sentinel.  \<open>get_star_dash\<close> (raffle\_dash.py) does that; \<open>get_star\<close>, the text shared by
  verify\_participant\_counts.py, stats\_by\_user.py and export\_reverify\_list.py, has no range
  check: on a record whose nested rating is 0 it returns 0, and on a rating of 7 it
  returns 7, where the sibling returns \<open>None\<close>.
\<close>

theorem get_star_out_of_range:
  "get_star (JDict [(''raffle'', JDict [(''stickerStars'', JInt 0)])]) = Inr (Some 0)
   \<and> get_star (JDict [(''raffle'', JDict [(''stickerStars'', JInt 7)])]) = Inr (Some 7)
   \<and> get_star_dash (JDict [(''raffle'', JDict [(''stickerStars'', JInt 0)])]) = Inr None
   \<and> get_star_dash (JDict [(''raffle'', JDict [(''stickerStars'', JInt 7)])]) = Inr None"
  by (simp add: get_star_def get_star_dash_def raw_star_def dict_get_def try_int_def)

text \<open>An infinite float is not caught by any of the versions: \<^verbatim>\<open>int\<close> raises OverflowError,
  which the \<^verbatim>\<open>except\<close> clause does not name.\<close>

lemma get_star_infinite:
  "get_star (JDict [(''raffle'', JDict [(''stickerStars'', JPosInf)])]) = Inl OverflowError
   \<and> get_star_dash (JDict [(''raffle'', JDict [(''stickerStars'', JPosInf)])]) = Inl OverflowError"
  by (simp add: get_star_def get_star_dash_def raw_star_def dict_get_def try_int_def)

text \<open>
  Claim C7.  The claim asks the explicit count field to be preferred over the length of
  the id list.  \<open>get_participant_info\<close> (verify\_participant\_counts.py) and
  \<open>get_participant_count\<close> (stats\_by\_user.py) do that; \<open>get_participant_info_dash\<close>
  (raffle\_dash.py) returns the length of the id list whenever the list is present and
  reads the count field only when it is not: on a record with \<^verbatim>\<open>participantCount\<close> 8 and
  five ids it returns 5, where the siblings return 8.
\<close>

theorem dash_prefers_id_list:
  "get_participant_info_dash
     (JDict [(''raffle'', JDict [(''participantCount'', JInt 8),
        (''participantIds'', JList [JStr ''a'', JStr ''b'', JStr ''c'', JStr ''d'', JStr ''e''])])])
     = Inr (Some 5, Some [JStr ''a'', JStr ''b'', JStr ''c'', JStr ''d'', JStr ''e''], True)
   \<and> get_participant_info
     (JDict [(''raffle'', JDict [(''participantCount'', JInt 8),
        (''participantIds'', JList [JStr ''a'', JStr ''b'', JStr ''c'', JStr ''d'', JStr ''e''])])])
     = Inr (Some 8, Some 5)
   \<and> get_participant_count
     (JDict [(''raffle'', JDict [(''participantCount'', JInt 8),
        (''participantIds'', JList [JStr ''a'', JStr ''b'', JStr ''c'', JStr ''d'', JStr ''e''])])])
     = Inr (Some 8)"
  by (simp add: get_participant_info_dash_def get_participant_info_def get_participant_count_def
      dict_get_def try_int_def)

text \<open>Where neither field gives a count, all three versions return \<open>None\<close>, not zero.\<close>

lemma participant_count_absent:
  assumes "dict_get rd ''participantCount'' = JNull" "dict_get rd ''participantIds'' = JNull"
  shows "get_participant_info (JDict [(''raffle'', JDict rd)]) = Inr (None, None)"
    and "get_participant_count (JDict [(''raffle'', JDict rd)]) = Inr None"
    and "get_participant_info_dash (JDict [(''raffle'', JDict rd)]) = Inr (None, None, False)"
  using assms
  by (simp_all add: get_participant_info_def get_participant_count_def
      get_participant_info_dash_def dict_get_def try_int_def)

section \<open>Properties of the record reconciler\<close>

lemma score_entry_dict: "score_entry a = Inr s \<Longrightarrow> a \<noteq> JNull"
  by (auto simp: score_entry_def py_get_def)

lemma consider_entry_fresh:
  "entries_by_post st pid = None \<Longrightarrow>
   consider_entry st d pid a =
     Inr (st\<lparr>entries_by_post := (entries_by_post st)(pid \<mapsto> a),
             day_keys_by_post := (day_keys_by_post st)(pid \<mapsto> d)\<rparr>)"
  by (simp add: consider_entry_def)

lemma consider_entry_present:
  "entries_by_post st pid = Some b \<Longrightarrow> b \<noteq> JNull \<Longrightarrow>
   score_entry a = Inr sa \<Longrightarrow> score_entry b = Inr sb \<Longrightarrow>
   consider_entry st d pid a =
     Inr (if sb < sa then st\<lparr>entries_by_post := (entries_by_post st)(pid \<mapsto> a),
             day_keys_by_post := (day_keys_by_post st)(pid \<mapsto> d)\<rparr> else st)"
  by (simp add: consider_entry_def)

text \<open>
  The score-based reconcilers of export\_reverify\_list.py and stats\_by\_user.py: of two
  observations of one post id, offered in either order, the one of strictly greater
  score is retained, and the first-offered one when the scores are equal.
\<close>

lemma consider_two:
  assumes "entries_by_post st pid = None" "score_entry a = Inr sa" "score_entry b = Inr sb"
  shows "\<exists>st'. consider_all st [(d1, pid, a), (d2, pid, b)] = Inr st'
            \<and> entries_by_post st' pid = Some (if sa < sb then b else a)"
  using assms score_entry_dict [OF assms(2)]
  by (simp add: consider_entry_fresh consider_entry_present)

lemma consider_order_independent:
  assumes "entries_by_post st pid = None" "score_entry a = Inr sa" "score_entry b = Inr sb"
    and "sb < sa"
  shows "\<exists>s1 s2. consider_all st [(d1, pid, a), (d2, pid, b)] = Inr s1
            \<and> consider_all st [(d2, pid, b), (d1, pid, a)] = Inr s2
            \<and> entries_by_post s1 pid = Some a \<and> entries_by_post s2 pid = Some a"
  using consider_two [OF assms(1) assms(2) assms(3), of d1 d2]
    consider_two [OF assms(1) assms(3) assms(2), of d2 d1] assms(4)
  by auto

lemma add_entry_two:
  assumes "m date pid = None" "score_entry a = Inr sa" "score_entry b = Inr sb"
  shows "\<exists>m'. ebind (add_entry m date pid a) (\<lambda>m1. add_entry m1 date pid b) = Inr m'
            \<and> m' date pid = Some (if sa < sb then b else a)"
  using assms score_entry_dict [OF assms(2)]
  by (simp add: add_entry_def)

text \<open>
  Claim C1.  The claim asks the more complete of two observations of one post id to be
  retained in either order.  The audit of verify\_participant\_counts.py keeps whichever
  observation of a post id it reads first and never compares scores: offered an
  observation with no winner and no participant signal (score 0,0,0,0) and then one of
  the same post id with both (score 1,1,0,0), it builds its row from the first, while
  \<open>reverify_entries\<close> (export\_reverify\_list.py) retains the second on the same input.
\<close>

theorem audit_keeps_first_seen:
  "audit_observations
     [(''2026-01-01'', ''t3_abc'', JDict []),
      (''2026-01-02'', ''t3_abc'',
         JDict [(''winner'', JDict [(''winnerName'', JStr ''alice'')]),
                (''raffle'', JDict [(''participantCount'', JInt 12)])])]
     = [(''2026-01-01'', ''t3_abc'', JDict [])]
   \<and> score_entry (JDict []) = Inr (0, 0, 0, 0)
   \<and> score_entry (JDict [(''winner'', JDict [(''winnerName'', JStr ''alice'')]),
                          (''raffle'', JDict [(''participantCount'', JInt 12)])]) = Inr (1, 1, 0, 0)
   \<and> map_sum id (\<lambda>st. entries_by_post st ''t3_abc'')
       (reverify_entries
          [(''2026-01-01'', ''t3_abc'', JDict []),
           (''2026-01-02'', ''t3_abc'',
              JDict [(''winner'', JDict [(''winnerName'', JStr ''alice'')]),
                     (''raffle'', JDict [(''participantCount'', JInt 12)])])])
     = Inr (Some (JDict [(''winner'', JDict [(''winnerName'', JStr ''alice'')]),
                         (''raffle'', JDict [(''participantCount'', JInt 12)])]))"
  by (simp add: audit_observations_def reverify_entries_def iter_raffles_def consider_entry_def
      score_entry_def py_get_def dict_get_def py_or_def Let_def)

section \<open>Totality of the statistics\<close>







section \<open>Properties of the outlier detector\<close>


































section \<open>Properties of the fairness estimator\<close>

subsection \<open>Counters\<close>

lemma counter_get_Nil [simp]: "counter_get [] k = 0"
  by (simp add: counter_get_def)

lemma counter_get_add:
  fixes v :: "'v::comm_monoid_add"
  shows "counter_get (counter_add c k v) k' =
     (if k' = k then counter_get c k + v else counter_get c k')"
  by (simp add: counter_get_def counter_add_def update_conv')

lemma counter_add_keys:
  "map fst (counter_add c k v) = (if k \<in> set (map fst c) then map fst c else map fst c @ [k])"
  by (simp add: counter_add_def update_keys)

lemma counter_add_distinct:
  "distinct (map fst c) \<Longrightarrow> distinct (map fst (counter_add c k v))"
  by (simp add: counter_add_keys)

lemma counter_fold_get:
  fixes p :: "'v::semiring_1"
  shows "counter_get (fold (\<lambda>pid c. counter_add c pid p) u c) i =
     counter_get c i + of_nat (count_list u i) * p"
proof (induction u arbitrary: c)
  case Nil
  then show ?case by simp
next
  case (Cons x u)
  show ?case
    by (simp add: Cons.IH counter_get_add algebra_simps)
qed

lemma counter_fold_keys:
  "fst ` set (fold (\<lambda>pid c. counter_add c pid p) u c) = fst ` set c \<union> set u"
proof (induction u arbitrary: c)
  case Nil
  then show ?case by simp
next
  case (Cons x u)
  have "fst ` set (counter_add c x p) = insert x (fst ` set c)"
    using counter_add_keys [of c x p] by (metis dom_update counter_add_def insert_is_Un)
  with Cons.IH [of "counter_add c x p"] show ?case by auto
qed

lemma counter_fold_distinct:
  "distinct (map fst c) \<Longrightarrow> distinct (map fst (fold (\<lambda>pid c. counter_add c pid p) u c))"
proof (induction u arbitrary: c)
  case Nil
  then show ?case by simp
next
  case (Cons x u)
  from Cons.prems have "distinct (map fst (counter_add c x p))"
    by (rule counter_add_distinct)
  from Cons.IH [OF this] show ?case by simp
qed

lemma counter_fold_same_keys:
  "map fst c = map fst c' \<Longrightarrow>
   map fst (fold (\<lambda>pid c. counter_add c pid p) u c) =
   map fst (fold (\<lambda>pid c. counter_add c pid q) u c')"
proof (induction u arbitrary: c c')
  case Nil
  then show ?case by simp
next
  case (Cons x u)
  from Cons.prems have "map fst (counter_add c x p) = map fst (counter_add c' x q)"
    by (simp add: counter_add_keys)
  from Cons.IH [OF this] show ?case by simp
qed

text \<open>A table with distinct keys: sums and counts over its values are sums and counts over
  its keys.\<close>

lemma counter_get_member:
  assumes "distinct (map fst c)" "(k, v) \<in> set c"
  shows "counter_get c k = v"
  using assms by (simp add: counter_get_def)

lemma sum_values_by_key:
  fixes f :: "'v::zero \<Rightarrow> real"
  assumes "distinct (map fst c)"
  shows "sum_list (map f (map snd c)) = sum (\<lambda>k. f (counter_get c k)) (set (map fst c))"
proof -
  have "map f (map snd c) = map (\<lambda>k. f (counter_get c k)) (map fst c)"
    using counter_get_member [OF assms] by (auto simp: map_eq_conv)
  then show ?thesis
    using assms by (simp only: sum_list_distinct_conv_sum_set)
qed


lemma fold_plus_sum_list:
  fixes f :: "real \<Rightarrow> real"
  shows "fold (\<lambda>x acc. acc + f x) xs a = a + sum_list (map f xs)"
  by (induction xs arbitrary: a) simp_all

subsection \<open>One pass of the loop\<close>

lemma inner_fold:
  "fold (\<lambda>pid s.
      s\<lparr>five_star_participant_entries := counter_add (five_star_participant_entries s) pid q,
        five_star_lambda := counter_add (five_star_lambda s) pid p\<rparr>) u st =
   st\<lparr>five_star_participant_entries :=
        fold (\<lambda>pid c. counter_add c pid q) u (five_star_participant_entries st),
      five_star_lambda := fold (\<lambda>pid c. counter_add c pid p) u (five_star_lambda st)\<rparr>"
  by (induction u arbitrary: st) simp_all

text \<open>The part of a pass that concerns the participants, and the part that concerns the
  winner.\<close>

lemma apply_view_lambda:
  "five_star_lambda (apply_view st w) =
     (case v_unique w of
        Some u \<Rightarrow>
          if v_stars w = Some 5 \<and> u \<noteq> [] then
            fold (\<lambda>pid c. counter_add c pid (1 / real (length u))) u (five_star_lambda st)
          else five_star_lambda st
      | None \<Rightarrow> five_star_lambda st)"
  by (simp add: apply_view_def Let_def inner_fold split: option.splits)

lemma apply_view_entries:
  "five_star_participant_entries (apply_view st w) =
     (case v_unique w of
        Some u \<Rightarrow>
          if v_stars w = Some 5 \<and> u \<noteq> [] then
            fold (\<lambda>pid c. counter_add c pid 1) u (five_star_participant_entries st)
          else five_star_participant_entries st
      | None \<Rightarrow> five_star_participant_entries st)"
  by (simp add: apply_view_def Let_def inner_fold split: option.splits)

lemma apply_view_winners:
  "five_star_winner_counts (apply_view st w) =
     (case v_winner w of
        Some k \<Rightarrow>
          if v_stars w = Some 5 \<and> k \<noteq> [] then counter_add (five_star_winner_counts st) k 1
          else five_star_winner_counts st
      | None \<Rightarrow> five_star_winner_counts st)"
  by (simp add: apply_view_def Let_def inner_fold split: option.splits)

lemma count_list_distinct:
  "distinct u \<Longrightarrow> count_list u i = (if i \<in> set u then 1 else 0)"
  by (induction u) auto

subsection \<open>The whole loop\<close>

lemma foldl_lambda_get:
  assumes "\<And>w u. w \<in> set ws \<Longrightarrow> v_unique w = Some u \<Longrightarrow> distinct u"
  shows "counter_get (five_star_lambda (foldl apply_view st ws)) i =
     counter_get (five_star_lambda st) i + spec_lambda (five_star_sets ws) i"
  using assms
proof (induction ws arbitrary: st)
  case Nil
  then show ?case by (simp add: spec_lambda_def five_star_sets_def)
next
  case (Cons w ws)
  have step: "counter_get (five_star_lambda (apply_view st w)) i =
      counter_get (five_star_lambda st) i
      + (if v_stars w = Some 5 then
           (case v_unique w of
              Some u \<Rightarrow> if i \<in> set u then 1 / real (card (set u)) else 0
            | None \<Rightarrow> 0)
         else 0)"
  proof (cases "v_unique w")
    case None
    then show ?thesis by (simp add: apply_view_lambda)
  next
    case (Some u)
    then have d: "distinct u" using Cons.prems [of w u] by simp
    then have "length u = card (set u)" by (simp add: distinct_card)
    with Some d show ?thesis
      by (auto simp: apply_view_lambda counter_fold_get count_list_distinct)
  qed
  have tl: "spec_lambda (five_star_sets (w # ws)) i =
      (if v_stars w = Some 5 then
           (case v_unique w of
              Some u \<Rightarrow> if i \<in> set u then 1 / real (card (set u)) else 0
            | None \<Rightarrow> 0)
         else 0) + spec_lambda (five_star_sets ws) i"
    by (simp add: spec_lambda_def five_star_sets_def split: option.splits)
  have "counter_get (five_star_lambda (foldl apply_view (apply_view st w) ws)) i =
      counter_get (five_star_lambda (apply_view st w)) i + spec_lambda (five_star_sets ws) i"
  proof (rule Cons.IH)
    fix w' u
    assume "w' \<in> set ws" "v_unique w' = Some u"
    then show "distinct u" using Cons.prems [of w' u] by simp
  qed
  with step tl show ?case by simp
qed

lemma foldl_lambda_keys:
  "fst ` set (five_star_lambda (foldl apply_view st ws)) =
     fst ` set (five_star_lambda st) \<union> \<Union> (set (five_star_sets ws))"
proof (induction ws arbitrary: st)
  case Nil
  then show ?case by (simp add: five_star_sets_def)
next
  case (Cons w ws)
  have step: "fst ` set (five_star_lambda (apply_view st w)) =
      fst ` set (five_star_lambda st)
      \<union> (if v_stars w = Some 5 then (case v_unique w of Some u \<Rightarrow> set u | None \<Rightarrow> {}) else {})"
    by (cases "v_unique w") (auto simp: apply_view_lambda counter_fold_keys)
  have tl: "\<Union> (set (five_star_sets (w # ws))) =
      (if v_stars w = Some 5 then (case v_unique w of Some u \<Rightarrow> set u | None \<Rightarrow> {}) else {})
      \<union> \<Union> (set (five_star_sets ws))"
    by (simp add: five_star_sets_def split: option.splits)
  show ?case
    using Cons.IH [of "apply_view st w"] step tl by (simp add: Un_assoc)
qed

lemma foldl_lambda_distinct:
  "distinct (map fst (five_star_lambda st)) \<Longrightarrow>
   distinct (map fst (five_star_lambda (foldl apply_view st ws)))"
proof (induction ws arbitrary: st)
  case Nil
  then show ?case by simp
next
  case (Cons w ws)
  from Cons.prems have "distinct (map fst (five_star_lambda (apply_view st w)))"
    by (cases "v_unique w") (simp_all add: apply_view_lambda counter_fold_distinct)
  from Cons.IH [OF this] show ?case by simp
qed

lemma foldl_same_keys:
  "map fst (five_star_participant_entries st) = map fst (five_star_lambda st) \<Longrightarrow>
   map fst (five_star_participant_entries (foldl apply_view st ws)) =
   map fst (five_star_lambda (foldl apply_view st ws))"
proof (induction ws arbitrary: st)
  case Nil
  then show ?case by simp
next
  case (Cons w ws)
  from Cons.prems have "map fst (five_star_participant_entries (apply_view st w)) =
      map fst (five_star_lambda (apply_view st w))"
    by (cases "v_unique w")
       (simp_all add: apply_view_lambda apply_view_entries counter_fold_same_keys)
  from Cons.IH [OF this] show ?case by simp
qed

lemma foldl_winner_get:
  "counter_get (five_star_winner_counts (foldl apply_view st ws)) k =
     counter_get (five_star_winner_counts st) k + count_list (five_star_winners ws) k"
proof (induction ws arbitrary: st)
  case Nil
  then show ?case by (simp add: five_star_winners_def)
next
  case (Cons w ws)
  have step: "counter_get (five_star_winner_counts (apply_view st w)) k =
      counter_get (five_star_winner_counts st) k
      + (if v_stars w = Some 5 \<and> v_winner w = Some k \<and> k \<noteq> [] then 1 else 0)"
    by (cases "v_winner w") (auto simp: apply_view_winners counter_get_add)
  have tl: "count_list (five_star_winners (w # ws)) k =
      (if v_stars w = Some 5 \<and> v_winner w = Some k \<and> k \<noteq> [] then 1 else 0)
      + count_list (five_star_winners ws) k"
    by (auto simp: five_star_winners_def split: option.splits)
  show ?case
    using Cons.IH [of "apply_view st w"] step tl by simp
qed

lemma foldl_winner_keys:
  "fst ` set (five_star_winner_counts (foldl apply_view st ws)) =
     fst ` set (five_star_winner_counts st) \<union> set (five_star_winners ws)"
proof (induction ws arbitrary: st)
  case Nil
  then show ?case by (simp add: five_star_winners_def)
next
  case (Cons w ws)
  have k: "fst ` set (counter_add c x v) = insert x (fst ` set c)" for c :: "(string \<times> nat) list" and x v
    by (simp add: counter_add_def dom_update)
  have step: "fst ` set (five_star_winner_counts (apply_view st w)) =
      fst ` set (five_star_winner_counts st)
      \<union> (if v_stars w = Some 5 then
            (case v_winner w of Some x \<Rightarrow> if x \<noteq> [] then {x} else {} | None \<Rightarrow> {})
          else {})"
    by (cases "v_winner w") (auto simp: apply_view_winners k)
  have tl: "set (five_star_winners (w # ws)) =
      (if v_stars w = Some 5 then
            (case v_winner w of Some x \<Rightarrow> if x \<noteq> [] then {x} else {} | None \<Rightarrow> {})
          else {})
      \<union> set (five_star_winners ws)"
    by (auto simp: five_star_winners_def split: option.splits)
  show ?case
    using Cons.IH [of "apply_view st w"] step tl by (simp add: Un_assoc)
qed

lemma foldl_winner_distinct:
  "distinct (map fst (five_star_winner_counts st)) \<Longrightarrow>
   distinct (map fst (five_star_winner_counts (foldl apply_view st ws)))"
proof (induction ws arbitrary: st)
  case Nil
  then show ?case by simp
next
  case (Cons w ws)
  from Cons.prems have "distinct (map fst (five_star_winner_counts (apply_view st w)))"
    by (cases "v_winner w") (simp_all add: apply_view_winners counter_add_distinct)
  from Cons.IH [OF this] show ?case by simp
qed

lemma fair_loop_foldl:
  "fair_loop repr exn exi st es = Inr st' \<Longrightarrow>
   st' = foldl apply_view st (views repr exn exi es)"
proof (induction es arbitrary: st)
  case Nil
  then show ?case by (simp add: views_def)
next
  case (Cons e es)
  from Cons.prems obtain v where v: "entry_view repr exn exi e = Inr v"
    and rest: "fair_loop repr exn exi (case v of None \<Rightarrow> st | Some w \<Rightarrow> apply_view st w) es = Inr st'"
    by (cases "entry_view repr exn exi e") simp_all
  from Cons.IH [OF rest] v show ?case
    by (cases v) (simp_all add: views_def)
qed

lemma unique_ids_distinct:
  assumes "(case p of
              JList l \<Rightarrow> ebind (filter_ids exi l) (\<lambda>ks. Inr (Some (remdups ks)))
            | _ \<Rightarrow> Inr None) = Inr (Some u)"
  shows "distinct u"
  using assms by (cases p) (auto simp: ebind_eq_Inr)

lemma entry_view_distinct:
  assumes "entry_view repr exn exi e = Inr (Some w)" "v_unique w = Some u"
  shows "distinct u"
proof (cases e)
  case (JDict d)
  with assms(1) obtain p su where
    "(case p of
        JList l \<Rightarrow> ebind (filter_ids exi l) (\<lambda>ks. Inr (Some (remdups ks)))
      | _ \<Rightarrow> Inr None) = Inr su"
    and "v_unique w = su"
    by (auto simp: entry_view_def Let_def ebind_eq_Inr split: prod.splits)
  with assms(2) show ?thesis
    using unique_ids_distinct [where p = p and exi = exi and u = u] by simp
qed (use assms in \<open>simp_all add: entry_view_def\<close>)

lemma views_member:
  "w \<in> set (views repr exn exi es) \<Longrightarrow> \<exists>e. entry_view repr exn exi e = Inr (Some w)"
proof (induction es)
  case Nil
  then show ?case by (simp add: views_def)
next
  case (Cons e es)
  show ?case
  proof (cases "entry_view repr exn exi e = Inr (Some w)")
    case True
    then show ?thesis by blast
  next
    case False
    with Cons.prems have "w \<in> set (views repr exn exi es)"
      by (auto simp: views_def split: sum.splits option.splits)
    then show ?thesis by (rule Cons.IH)
  qed
qed

lemma views_distinct:
  assumes "w \<in> set (views repr exn exi es)" "v_unique w = Some u"
  shows "distinct u"
proof -
  from views_member [OF assms(1)] obtain e where "entry_view repr exn exi e = Inr (Some w)"
    by blast
  from entry_view_distinct [OF this assms(2)] show ?thesis .
qed

subsection \<open>The estimate\<close>

lemma init_counters:
  "counter_get (five_star_lambda init_state) i = 0"
  "counter_get (five_star_winner_counts init_state) k = 0"
  "five_star_lambda init_state = []" "five_star_winner_counts init_state = []"
  "five_star_participant_entries init_state = []"
  by (simp_all add: init_state_def counter_get_def)

text \<open>The final tables of the loop, in the words of the specification.\<close>

lemma fair_loop_tables:
  assumes "fair_loop repr exn exi init_state es = Inr st"
  defines "ws \<equiv> views repr exn exi es"
  shows "distinct (map fst (five_star_lambda st))"
    and "fst ` set (five_star_lambda st) = \<Union> (set (five_star_sets ws))"
    and "counter_get (five_star_lambda st) i = spec_lambda (five_star_sets ws) i"
    and "map fst (five_star_participant_entries st) = map fst (five_star_lambda st)"
    and "distinct (map fst (five_star_winner_counts st))"
    and "fst ` set (five_star_winner_counts st) = set (five_star_winners ws)"
    and "counter_get (five_star_winner_counts st) k = count_list (five_star_winners ws) k"
proof -
  have st: "st = foldl apply_view init_state ws"
    unfolding ws_def using assms(1) by (rule fair_loop_foldl)
  show "distinct (map fst (five_star_lambda st))"
    unfolding st by (rule foldl_lambda_distinct) (simp add: init_counters)
  show "fst ` set (five_star_lambda st) = \<Union> (set (five_star_sets ws))"
    unfolding st by (simp add: foldl_lambda_keys init_counters)
  have d: "\<And>w u. w \<in> set ws \<Longrightarrow> v_unique w = Some u \<Longrightarrow> distinct u"
    unfolding ws_def by (rule views_distinct)
  have "counter_get (five_star_lambda (foldl apply_view init_state ws)) i =
      counter_get (five_star_lambda init_state) i + spec_lambda (five_star_sets ws) i"
    by (rule foldl_lambda_get) (rule d)
  then show "counter_get (five_star_lambda st) i = spec_lambda (five_star_sets ws) i"
    unfolding st by (simp add: init_counters)
  show "map fst (five_star_participant_entries st) = map fst (five_star_lambda st)"
    unfolding st by (rule foldl_same_keys) (simp add: init_counters)
  show "distinct (map fst (five_star_winner_counts st))"
    unfolding st by (rule foldl_winner_distinct) (simp add: init_counters)
  show "fst ` set (five_star_winner_counts st) = set (five_star_winners ws)"
    unfolding st by (simp add: foldl_winner_keys init_counters)
  show "counter_get (five_star_winner_counts st) k = count_list (five_star_winners ws) k"
    unfolding st by (simp add: foldl_winner_get init_counters)
qed


lemma expected_as_sum:
  assumes "fair_loop repr exn exi init_state es = Inr st"
  shows "sum_list (map poisson_two_or_more (map snd (five_star_lambda st))) =
     spec_expected (five_star_sets (views repr exn exi es))"
proof -
  note t = fair_loop_tables [OF assms]
  have "sum_list (map poisson_two_or_more (map snd (five_star_lambda st))) =
      sum (\<lambda>k. poisson_two_or_more (counter_get (five_star_lambda st) k))
        (set (map fst (five_star_lambda st)))"
    using t(1) by (rule sum_values_by_key)
  also have "set (map fst (five_star_lambda st)) = \<Union> (set (five_star_sets (views repr exn exi es)))"
    using t(2) by simp
  finally have "sum_list (map poisson_two_or_more (map snd (five_star_lambda st))) =
      sum (\<lambda>k. poisson_two_or_more (counter_get (five_star_lambda st) k))
        (\<Union> (set (five_star_sets (views repr exn exi es))))" .
  also have "\<dots> = spec_expected (five_star_sets (views repr exn exi es))"
    by (simp add: t(3) spec_expected_def poisson_two_or_more_def)
  finally show ?thesis .
qed







subsection \<open>Bounds\<close>

lemma poisson_positive:
  assumes "0 < l"
  shows "0 < poisson_two_or_more l" and "poisson_two_or_more l < 1"
proof -
  have "1 + l + l\<^sup>2 / 2 \<le> exp l"
    using assms by (intro exp_lower_Taylor_quadratic) simp
  moreover have "0 < l\<^sup>2 / 2" using assms by simp
  ultimately have lt: "1 + l < exp l" by linarith
  have "exp (- l) * (1 + l) < exp (- l) * exp l"
    using lt by (intro mult_strict_left_mono) simp_all
  also have "exp (- l) * exp l = 1"
    by (simp add: exp_minus field_simps)
  finally show "0 < poisson_two_or_more l"
    by (simp add: poisson_two_or_more_def)
  have "0 < exp (- l) * (1 + l)"
    using assms by (intro mult_pos_pos) simp_all
  then show "poisson_two_or_more l < 1"
    by (simp add: poisson_two_or_more_def)
qed










subsection \<open>The two synthetic strata\<close>

lemma views_map:
  assumes "\<And>x. x \<in> set xs \<Longrightarrow> entry_view repr exn exi (f x) = Inr (Some (g x))"
  shows "views repr exn exi (map f xs) = map g xs"
  using assms by (induction xs) (simp_all add: views_def)

lemma fair_loop_returns:
  assumes "\<And>e. e \<in> set es \<Longrightarrow> \<exists>v. entry_view repr exn exi e = Inr v"
  shows "\<exists>st'. fair_loop repr exn exi st es = Inr st'"
  using assms
proof (induction es arbitrary: st)
  case Nil
  then show ?case by simp
next
  case (Cons e es)
  from Cons.prems obtain v where v: "entry_view repr exn exi e = Inr v" by auto
  have "\<exists>st'. fair_loop repr exn exi (case v of None \<Rightarrow> st | Some w \<Rightarrow> apply_view st w) es = Inr st'"
    using Cons.prems by (intro Cons.IH) simp
  with v show ?case by simp
qed

lemma compute_stats_daily_returns:
  assumes "fair_loop repr exn exi init_state (map snd bucket) = Inr st"
  shows "\<not> isl (compute_stats_daily repr bucket exn exi)"
    and "expected_double_winners (projr (compute_stats_daily repr bucket exn exi)) =
           spec_expected (five_star_sets (views repr exn exi (map snd bucket)))"
proof -
  have c: "compute_stats_daily repr bucket exn exi =
      Inr \<lparr>five_star_participants = length (five_star_participant_entries st),
            expected_double_winners =
              fold (\<lambda>lam acc. acc + poisson_two_or_more lam) (map snd (five_star_lambda st)) 0,
            actual_double_winners =
              length (filter (\<lambda>wins. wins \<ge> 2) (map snd (five_star_winner_counts st)))\<rparr>"
    using assms by (simp add: compute_stats_daily_def)
  then show "\<not> isl (compute_stats_daily repr bucket exn exi)" by simp
  from c expected_as_sum [OF assms]
  show "expected_double_winners (projr (compute_stats_daily repr bucket exn exi)) =
           spec_expected (five_star_sets (views repr exn exi (map snd bucket)))"
    by (simp add: fold_plus_sum_list)
qed

lemma plain_entry_view:
  assumes "filter_ids {} ps = Inr ks"
  shows "entry_view repr {} {}
       (JDict [(''raffle'', JDict [(''stickerStars'', JInt 5), (''participantIds'', JList ps)])])
     = Inr (Some \<lparr>v_stars = Some 5, v_unique = Some (remdups ks), v_winner = None\<rparr>)"
  using assms
  by (simp add: entry_view_def py_or_def dict_get_def py_get_def try_int_def
      extract_winner_def or_else_def normalize_winner_def Let_def)

lemma five_star_sets_map:
  "five_star_sets (map (\<lambda>k. \<lparr>v_stars = Some 5, v_unique = Some (u k), v_winner = None\<rparr>) xs) =
     map (\<lambda>k. set (u k)) xs"
  by (induction xs) (simp_all add: five_star_sets_def)

lemma spec_lambda_map:
  "spec_lambda (map S [0..<n]) i =
     sum (\<lambda>k. if i \<in> S k then 1 / real (card (S k)) else 0) {0..<n}"
  by (simp add: spec_lambda_def comp_def interv_sum_list_conv_sum_set_nat)

text \<open>One participant per record, no participant in two records: every rate is 1.\<close>

lemma replicate_name_inj:
  "p @ replicate a c = p @ replicate b c \<longleftrightarrow> a = b"
proof
  assume "p @ replicate a c = p @ replicate b c"
  then have "length (replicate a c) = length (replicate b c)" by simp
  then show "a = b" by simp
qed simp

lemma single_entrant_expected:
  "\<not> isl (compute_stats_daily repr (single_entrant_bucket n) {} {})
   \<and> expected_double_winners (projr (compute_stats_daily repr (single_entrant_bucket n) {} {}))
       = real n * (1 - 2 * exp (- 1))"
proof -
  define name where "name = (\<lambda>k. ''t2_'' @ replicate k (CHR ''u''))"
  define entry where "entry = (\<lambda>k. JDict [(''raffle'', JDict [(''stickerStars'', JInt 5),
                  (''participantIds'', JList [JStr (name k)])])])"
  define view where
    "view = (\<lambda>k. \<lparr>v_stars = Some 5, v_unique = Some [HStr (name k)], v_winner = None\<rparr>)"
  define sets where "sets = map (\<lambda>k. {HStr (name k)}) [0..<n]"
  have name_eq: "name a = name b \<longleftrightarrow> a = b" for a b
    unfolding name_def by (rule replicate_name_inj)
  have es: "map snd (single_entrant_bucket n) = map entry [0..<n]"
    by (simp add: single_entrant_bucket_def comp_def entry_def name_def)
  have ev: "entry_view repr {} {} (entry k) = Inr (Some (view k))" for k
    unfolding entry_def view_def
    using plain_entry_view [of "[JStr (name k)]" "[HStr (name k)]" repr] by simp
  have vs: "views repr {} {} (map snd (single_entrant_bucket n)) = map view [0..<n]"
    unfolding es by (rule views_map) (rule ev)
  have fs: "five_star_sets (views repr {} {} (map snd (single_entrant_bucket n))) = sets"
    unfolding vs view_def sets_def
    using five_star_sets_map [of "\<lambda>k. [HStr (name k)]" "[0..<n]"] by simp
  have inj: "inj_on (\<lambda>k. HStr (name k)) {0..<n}"
    by (rule inj_onI) (simp add: name_eq)
  have lam: "spec_lambda sets (HStr (name j)) = 1" if "j < n" for j
  proof -
    have "spec_lambda sets (HStr (name j)) = sum (\<lambda>k. if j = k then 1 else 0) {0..<n}"
      unfolding sets_def by (simp add: spec_lambda_map name_eq)
    also have "\<dots> = 1" using that by simp
    finally show ?thesis .
  qed
  have un: "\<Union> (set sets) = (\<lambda>k. HStr (name k)) ` {0..<n}"
    unfolding sets_def by auto
  have "spec_expected sets =
      sum (\<lambda>j. 1 - exp (- spec_lambda sets (HStr (name j)))
                   * (1 + spec_lambda sets (HStr (name j)))) {0..<n}"
    unfolding spec_expected_def un using inj by (simp add: sum.reindex comp_def)
  also have "\<dots> = sum (\<lambda>j. 1 - 2 * exp (- 1)) {0..<n}"
  proof (rule sum.cong)
    fix j
    assume "j \<in> {0..<n}"
    then have "spec_lambda sets (HStr (name j)) = 1" by (simp add: lam)
    then show "1 - exp (- spec_lambda sets (HStr (name j))) * (1 + spec_lambda sets (HStr (name j)))
        = 1 - 2 * exp (- 1)"
      by simp
  qed simp
  also have "\<dots> = real n * (1 - 2 * exp (- 1))" by simp
  finally have ex: "spec_expected sets = real n * (1 - 2 * exp (- 1))" .
  have "\<exists>st. fair_loop repr {} {} init_state (map snd (single_entrant_bucket n)) = Inr st"
    unfolding es by (rule fair_loop_returns) (auto simp: ev)
  then obtain st where
    st: "fair_loop repr {} {} init_state (map snd (single_entrant_bucket n)) = Inr st" ..
  from compute_stats_daily_returns [OF st] fs ex show ?thesis by simp
qed

lemma exp_minus_one_bounds: "(366 / 1000 :: real) < exp (- 1)" "exp (- 1) < (370 / 1000 :: real)"
proof -
  have "(1 - 1 / real 100) ^ 100 \<le> exp (- 1)"
    by (rule exp_ge_one_minus_x_over_n_power_n) simp_all
  moreover have "(366 / 1000 :: real) < (1 - 1 / real 100) ^ 100" by (simp add: power_divide)
  ultimately show "(366 / 1000 :: real) < exp (- 1)" by linarith
  have "(1 + 1 / real 100) ^ 100 \<le> exp 1"
    by (rule exp_ge_one_plus_x_over_n_power_n) simp_all
  moreover have "(1000 / 370 :: real) < (1 + 1 / real 100) ^ 100" by (simp add: power_divide)
  ultimately have "(1000 / 370 :: real) < exp 1" by linarith
  then have "inverse (exp 1) < inverse (1000 / 370 :: real)"
    by (intro less_imp_inverse_less) simp_all
  then show "exp (- 1) < (370 / 1000 :: real)"
    by (simp add: exp_minus)
qed

lemma poisson_50_bounds: "1 - 1 / 10 ^ 12 < poisson_two_or_more 50" "poisson_two_or_more 50 < 1"
proof -
  have "(1 + 50 / real 50) ^ 50 \<le> exp 50"
    by (rule exp_ge_one_plus_x_over_n_power_n) simp_all
  then have "(2 :: real) ^ 50 \<le> exp 50" by simp
  then have "inverse (exp 50) \<le> inverse ((2 :: real) ^ 50)"
    by (intro le_imp_inverse_le) simp_all
  then have "exp (- 50) \<le> 1 / (2 :: real) ^ 50"
    by (simp add: exp_minus inverse_eq_divide)
  then have "exp (- 50) * 51 \<le> 1 / (2 :: real) ^ 50 * 51"
    by (intro mult_right_mono) simp_all
  also have "1 / (2 :: real) ^ 50 * 51 < 1 / 10 ^ 12" by simp
  finally show "1 - 1 / 10 ^ 12 < poisson_two_or_more 50"
    by (simp add: poisson_two_or_more_def)
  show "poisson_two_or_more 50 < 1"
    using poisson_positive(2) [of 50] by simp
qed

text \<open>One participant in every record, each record with one other entrant of its own: the
  rate of that participant is half the number of records.\<close>

lemma repeat_entrant_rate:
  "\<not> isl (fair_loop repr {} {} init_state (map snd (repeat_entrant_bucket n)))
   \<and> counter_get (five_star_lambda
         (projr (fair_loop repr {} {} init_state (map snd (repeat_entrant_bucket n)))))
       (HStr ''t2_hero'') = real n / 2"
proof -
  define hero where "hero = HStr ''t2_hero''"
  define name where "name = (\<lambda>k. ''t2_'' @ replicate k (CHR ''r''))"
  define entry where "entry = (\<lambda>k. JDict [(''raffle'', JDict [(''stickerStars'', JInt 5),
                  (''participantIds'', JList [JStr ''t2_hero'', JStr (name k)])])])"
  define view where
    "view = (\<lambda>k. \<lparr>v_stars = Some 5, v_unique = Some [hero, HStr (name k)], v_winner = None\<rparr>)"
  define sets where "sets = map (\<lambda>k. {hero, HStr (name k)}) [0..<n]"
  have ne: "hero \<noteq> HStr (name k)" for k
  proof
    assume "hero = HStr (name k)"
    then have "''hero'' = replicate k (CHR ''r'')" by (simp add: hero_def name_def)
    then have "CHR ''h'' \<in> set (replicate k (CHR ''r''))"
      by (metis list.set_intros(1))
    then show False by simp
  qed
  have es: "map snd (repeat_entrant_bucket n) = map entry [0..<n]"
    by (simp add: repeat_entrant_bucket_def comp_def entry_def name_def)
  have ev: "entry_view repr {} {} (entry k) = Inr (Some (view k))" for k
    unfolding entry_def view_def
    using plain_entry_view [of "[JStr ''t2_hero'', JStr (name k)]" "[hero, HStr (name k)]" repr]
      ne [of k]
    by (simp add: hero_def)
  have vs: "views repr {} {} (map snd (repeat_entrant_bucket n)) = map view [0..<n]"
    unfolding es by (rule views_map) (rule ev)
  have fs: "five_star_sets (views repr {} {} (map snd (repeat_entrant_bucket n))) = sets"
    unfolding vs view_def sets_def
    using five_star_sets_map [of "\<lambda>k. [hero, HStr (name k)]" "[0..<n]"] by simp
  have card2: "card {hero, HStr (name k)} = 2" for k
    using ne [of k] by simp
  have "spec_lambda sets hero = sum (\<lambda>k. 1 / 2) {0..<n}"
    unfolding sets_def spec_lambda_map by (rule sum.cong) (simp_all add: card2)
  also have "\<dots> = real n / 2" by simp
  finally have lam: "spec_lambda sets hero = real n / 2" .
  have "\<exists>st. fair_loop repr {} {} init_state (map snd (repeat_entrant_bucket n)) = Inr st"
    unfolding es by (rule fair_loop_returns) (auto simp: ev)
  then obtain st where
    st: "fair_loop repr {} {} init_state (map snd (repeat_entrant_bucket n)) = Inr st" ..
  from fair_loop_tables(3) [OF st, of hero] fs lam st show ?thesis
    by (simp add: hero_def)
qed

text \<open>
  Claim C5, as amended.  For the stratum of 1000 records with one participant each and no
  participant in two records, \<^verbatim>\<open>compute_stats\<close> returns and its expected double-winner count
  is \<open>1000 * (1 - 2 / e)\<close>, between 260 and 268: every rate is 1 and the Poisson term of
  rate 1 is about 0.264.  For the stratum in which one participant enters 100 records
  of 2 distinct entrants each, the rate of that participant is 50 and the term of rate
  50, its contribution to the expected count, is within \<open>10\<^sup>-\<^sup>1\<^sup>2\<close> of 1.
\<close>

theorem synthetic_strata:
  "\<not> isl (compute_stats_daily repr_unused (single_entrant_bucket 1000) {} {})
   \<and> expected_double_winners
         (projr (compute_stats_daily repr_unused (single_entrant_bucket 1000) {} {}))
       = 1000 * (1 - 2 * exp (- 1))
   \<and> 260 < expected_double_winners
         (projr (compute_stats_daily repr_unused (single_entrant_bucket 1000) {} {}))
   \<and> expected_double_winners
         (projr (compute_stats_daily repr_unused (single_entrant_bucket 1000) {} {})) < 268
   \<and> \<not> isl (fair_loop repr_unused {} {} init_state (map snd (repeat_entrant_bucket 100)))
   \<and> counter_get (five_star_lambda
         (projr (fair_loop repr_unused {} {} init_state (map snd (repeat_entrant_bucket 100)))))
       (HStr ''t2_hero'') = 50
   \<and> 1 - 1 / 10 ^ 12 < poisson_two_or_more 50
   \<and> poisson_two_or_more 50 < 1"
proof -
  note s = single_entrant_expected [of repr_unused 1000]
  note r = repeat_entrant_rate [of repr_unused 100]
  from s have e: "expected_double_winners
         (projr (compute_stats_daily repr_unused (single_entrant_bucket 1000) {} {}))
       = 1000 * (1 - 2 * exp (- 1))"
    by simp
  have lo: "260 < 1000 * (1 - 2 * exp (- 1 :: real))"
    using exp_minus_one_bounds(2) by simp
  have hi: "1000 * (1 - 2 * exp (- 1 :: real)) < 268"
    using exp_minus_one_bounds(1) by simp
  from r have h: "counter_get (five_star_lambda
         (projr (fair_loop repr_unused {} {} init_state (map snd (repeat_entrant_bucket 100)))))
       (HStr ''t2_hero'') = 50"
    by simp
  from s r e lo hi h poisson_50_bounds show ?thesis
    by (simp only: simp_thms)
qed

text \<open>
  Claim C5 as stated fails in its first part: on the 1000 single-entrant records the
  expected double-winner count is above 260, not approximately 0.
\<close>

theorem single_entrant_counterexample:
  "\<not> isl (compute_stats_daily repr_unused (single_entrant_bucket 1000) {} {})
   \<and> 260 < expected_double_winners
         (projr (compute_stats_daily repr_unused (single_entrant_bucket 1000) {} {}))"
proof -
  note s = single_entrant_expected [of repr_unused 1000]
  have "260 < 1000 * (1 - 2 * exp (- 1 :: real))"
    using exp_minus_one_bounds(2) by simp
  with s show ?thesis by simp
qed

end
